theory Spec2Isabelle
  imports Complex_Main "HOL-Library.Word"
begin

section \<open>JavaScript values\<close>

text \<open>
  Truthiness as the source's conditions use it: of an optional string, \<open>null\<close>,
  \<open>undefined\<close> and the empty string are falsy; of an optional time, \<open>null\<close> and 0 are
  falsy. \<open>a || b\<close> on strings, with the empty string for an absent one, is \<open>or_str a b\<close>.
\<close>

definition truthy_string :: "string option \<Rightarrow> bool" where
  "truthy_string s = (case s of None \<Rightarrow> False | Some u \<Rightarrow> u \<noteq> [])"

definition truthy_time :: "int option \<Rightarrow> bool" where
  "truthy_time t = (case t of None \<Rightarrow> False | Some v \<Rightarrow> v \<noteq> 0)"

definition or_str :: "string \<Rightarrow> string \<Rightarrow> string" where
  "or_str a b = (if a \<noteq> [] then a else b)"

section \<open>Audio capture buffer (utils/AudioBuffer.js)\<close>

text \<open>
  The buffer is a plain JavaScript array of numbers; \<open>new Int16Array(...)\<close> turns the
  numbers of a chunk into 16-bit signed samples (\<open>word_of_int\<close>: the value modulo
  \<open>2 ^ 16\<close>). Every \<open>Date.now()\<close> read is a parameter \<open>now\<close> of the operation.
  \<open>targetSamples\<close> is the field the constructor stored (it computes
  \<open>Math.floor(sampleRate * (targetDurationMs / 1000))\<close> in double arithmetic, which
  is not recomputed here). \<open>saved\<close> lists the chunks handed to \<open>saveChunkToFile\<close>
  (chunk number and samples); a failing \<open>fs.writeFileSync\<close> and the engine's limits
  on array sizes are not modelled.
\<close>

type_synonym int16 = "16 word"

record chunkData =
  samples :: "int16 list"
  c_sampleRate :: nat
  duration :: real
  timestamp :: int
  chunkNumber :: nat
  c_trackId :: string
  isFinal :: bool

record AudioBuffer =
  sampleRate :: nat
  targetDurationMs :: real
  targetSamples :: nat
  buffer :: "int list"
  trackId :: string
  saveToFile :: bool
  totalSamples :: nat
  chunksCreated :: nat
  stats_startTime :: int
  lastChunkTime :: "int option"
  saved :: "(nat \<times> int16 list) list"

definition saveChunkToFile :: "chunkData \<Rightarrow> AudioBuffer \<Rightarrow> AudioBuffer" where
  "saveChunkToFile cd b = b\<lparr>saved := saved b @ [(chunkNumber cd, samples cd)]\<rparr>"

definition createChunk :: "AudioBuffer \<Rightarrow> int \<Rightarrow> AudioBuffer \<times> chunkData" where
  "createChunk b now =
     (let chunkSamples = take (targetSamples b) (buffer b);
          chunk = map word_of_int chunkSamples;
          b1 = b\<lparr>buffer := drop (targetSamples b) (buffer b),
                  chunksCreated := chunksCreated b + 1,
                  lastChunkTime := Some now\<rparr>;
          cd = \<lparr>samples = chunk, c_sampleRate = sampleRate b1,
                duration = targetDurationMs b1, timestamp = now,
                chunkNumber = chunksCreated b1, c_trackId = trackId b1,
                isFinal = False\<rparr>
      in (if saveToFile b1 then saveChunkToFile cd b1 else b1, cd))"

definition addSamples :: "AudioBuffer \<Rightarrow> int \<Rightarrow> int list \<Rightarrow> AudioBuffer \<times> chunkData option" where
  "addSamples b now smp =
     (let b1 = b\<lparr>buffer := buffer b @ smp, totalSamples := totalSamples b + length smp\<rparr>
      in if length (buffer b1) \<ge> targetSamples b1
         then (case createChunk b1 now of (b2, cd) \<Rightarrow> (b2, Some cd))
         else (b1, None))"

definition flush :: "AudioBuffer \<Rightarrow> int \<Rightarrow> AudioBuffer \<times> chunkData option" where
  "flush b now =
     (if length (buffer b) > 0
      then (let remainingSamples = map word_of_int (buffer b);
                b1 = b\<lparr>buffer := []\<rparr>;
                cd = \<lparr>samples = remainingSamples, c_sampleRate = sampleRate b1,
                      duration = (real (length remainingSamples) / real (sampleRate b1)) * 1000,
                      timestamp = now, chunkNumber = chunksCreated b1 + 1,
                      c_trackId = trackId b1, isFinal = True\<rparr>
            in (if saveToFile b1 then saveChunkToFile cd b1 else b1, Some cd))
      else (b, None))"

text \<open>
  The caller (\<open>AudioProcessor.processAudioData\<close>) hands every incoming frame to
  \<open>addSamples\<close> and passes on the chunk, if one came back. \<open>feed\<close> does this for a
  list of frames, each with the clock reading of its call, and collects the chunks.
\<close>

fun feed :: "AudioBuffer \<Rightarrow> (int \<times> int list) list \<Rightarrow> AudioBuffer \<times> chunkData list" where
  "feed b [] = (b, [])"
| "feed b ((now, smp) # fs) =
     (case addSamples b now smp of
        (b1, r) \<Rightarrow> (case feed b1 fs of
                     (b2, cs) \<Rightarrow> (b2, (case r of None \<Rightarrow> [] | Some cd \<Rightarrow> [cd]) @ cs)))"

text \<open>
  The buffer \<open>new AudioBuffer({sampleRate: 2, trackId: 't'})\<close> created at clock 0:
  the default \<open>targetDurationMs\<close> of 1000 gives \<open>targetSamples = floor (2 * 1) = 2\<close>.
\<close>

definition buffer2 :: AudioBuffer where
  "buffer2 = \<lparr>sampleRate = 2, targetDurationMs = 1000, targetSamples = 2, buffer = [],
              trackId = ''t'', saveToFile = False, totalSamples = 0, chunksCreated = 0,
              stats_startTime = 0, lastChunkTime = None, saved = []\<rparr>"

section \<open>Resampler (utils/AudioResampler.js)\<close>

text \<open>
  Sample arrays are \<open>Int16Array\<close>s. A read past the end of a typed array gives
  \<open>undefined\<close>, which an \<open>Int16Array\<close> stores as 0 (\<open>sample_at\<close>). The source computes
  ratios, lengths and indices in double arithmetic; the model computes them in exact
  rational arithmetic (\<open>rat\<close>). \<open>Math.round\<close> rounds to the nearest integer, halves
  upwards. \<open>new Int16Array(Infinity)\<close>, reached through a \<open>fromRate\<close> of 0, throws a
  \<open>RangeError\<close>; \<open>new Int16Array(NaN)\<close> is the empty array.
\<close>

datatype js_error = RangeError | Error string

definition sample_at :: "int16 list \<Rightarrow> nat \<Rightarrow> int16" where
  "sample_at xs i = (if i < length xs then xs ! i else 0)"

definition math_round :: "rat \<Rightarrow> int" where
  "math_round x = \<lfloor>x + 1 / 2\<rfloor>"

definition downsample48to16 :: "int16 list \<Rightarrow> int16 list" where
  "downsample48to16 samples48k =
     (let ratio = 3;
          outputLength = length samples48k div ratio
      in map (\<lambda>i. sample_at samples48k (i * ratio)) [0..<outputLength])"

definition downsample48to24 :: "int16 list \<Rightarrow> int16 list" where
  "downsample48to24 samples48k =
     (let ratio = 2;
          outputLength = length samples48k div ratio
      in map (\<lambda>i. sample_at samples48k (i * ratio)) [0..<outputLength])"

text \<open>The branch of \<open>resampleAudio\<close> for 16000 to 24000: linear interpolation.\<close>

definition upsample16to24 :: "int16 list \<Rightarrow> int16 list" where
  "upsample16to24 smp =
     (let ratio = (3 / 2 :: rat);
          outputLength = nat \<lfloor>of_nat (length smp) * ratio\<rfloor>
      in map (\<lambda>i.
            let sourceIndex = of_nat i / ratio;
                index = nat \<lfloor>sourceIndex\<rfloor>;
                fraction = sourceIndex - of_nat index
            in if int index < int (length smp) - 1
               then word_of_int (math_round
                      (of_int (sint (sample_at smp index)) * (1 - fraction)
                       + of_int (sint (sample_at smp (index + 1))) * fraction))
               else sample_at smp (length smp - 1))
          [0..<outputLength])"

definition resampleAudio :: "int16 list \<Rightarrow> nat \<Rightarrow> nat \<Rightarrow> js_error + int16 list" where
  "resampleAudio smp fromRate toRate =
     (if fromRate = toRate then Inr smp
      else if fromRate = 48000 \<and> toRate = 16000 then Inr (downsample48to16 smp)
      else if fromRate = 48000 \<and> toRate = 24000 then Inr (downsample48to24 smp)
      else if fromRate = 16000 \<and> toRate = 24000 then Inr (upsample16to24 smp)
      else if fromRate = 0 then (if smp = [] then Inr [] else Inl RangeError)
      else if toRate = 0 then Inr []
      else (let ratio = (of_nat fromRate / of_nat toRate :: rat);
                outputLength = nat \<lfloor>of_nat (length smp) / ratio\<rfloor>
            in Inr (map (\<lambda>i. sample_at smp (nat \<lfloor>of_nat i * ratio\<rfloor>)) [0..<outputLength])))"

text \<open>The rate pairs the providers use: 48000, 16000 and 24000 Hz, in both directions.\<close>

definition supported_pairs :: "(nat \<times> nat) set" where
  "supported_pairs = {(48000, 16000), (16000, 48000), (48000, 24000), (24000, 48000),
                      (16000, 24000), (24000, 16000)}"

section \<open>Speaker attribution (services/ParticipantTracker.js)\<close>

text \<open>
  Times are \<open>Date.now()\<close> readings in milliseconds; each handler takes the reading
  \<open>now\<close> of its call (all reads within one synchronous handler are taken to be equal).
  An absent string field of an event is the empty string. Participants are objects
  shared by reference between the map and the handlers: a handler that receives a
  participant object is given the key the object is stored under.
\<close>

record participant =
  uuid :: string
  displayName :: string
  role :: string
  joinTime :: int
  isSpeaking :: bool
  lastSpokeAt :: "int option"
  totalSpeakingTime :: int
  speakingStartTime :: "int option"
  isMuted :: "bool option"

record historyEntry =
  h_uuid :: string
  h_displayName :: string
  startTime :: int
  endTime :: "int option"

record ParticipantTracker =
  participants :: "string \<rightharpoonup> participant"
  currentSpeaker :: "string option"
  speakingHistory :: "historyEntry list"
  lastSpeakerChange :: int

record participantData =
  pd_uuid :: string
  pd_participant_uuid :: string
  pd_display_name :: string
  pd_role :: string
  pd_vad :: "int option"
  pd_is_muted :: "bool option"

record speakerInfo =
  s_uuid :: string
  s_displayName :: string
  confidence :: real

definition new_tracker :: "int \<Rightarrow> ParticipantTracker" where
  "new_tracker now = \<lparr>participants = Map.empty, currentSpeaker = None,
                       speakingHistory = [], lastSpeakerChange = now\<rparr>"

definition data_uuid :: "participantData \<Rightarrow> string" where
  "data_uuid pd = or_str (pd_uuid pd) (pd_participant_uuid pd)"

definition addParticipant :: "ParticipantTracker \<Rightarrow> int \<Rightarrow> participantData \<Rightarrow> ParticipantTracker" where
  "addParticipant t now pd =
     (let p = \<lparr>uuid = or_str (pd_uuid pd) (pd_participant_uuid pd),
                displayName = or_str (pd_display_name pd) ''Unknown'',
                role = or_str (pd_role pd) ''guest'',
                joinTime = now, isSpeaking = False, lastSpokeAt = None,
                totalSpeakingTime = 0, speakingStartTime = None, isMuted = None\<rparr>
      in t\<lparr>participants := (participants t)(uuid p \<mapsto> p)\<rparr>)"

definition onStopSpeaking :: "ParticipantTracker \<Rightarrow> int \<Rightarrow> string \<Rightarrow> ParticipantTracker" where
  "onStopSpeaking t now k =
     (case participants t k of
        None \<Rightarrow> t
      | Some p \<Rightarrow>
          if \<not> isSpeaking p then t
          else
            let p1 = p\<lparr>isSpeaking := False\<rparr>;
                p2 = (if truthy_time (speakingStartTime p1)
                      then p1\<lparr>totalSpeakingTime :=
                                 totalSpeakingTime p1 + (now - the (speakingStartTime p1)),
                               speakingStartTime := None\<rparr>
                      else p1);
                h = speakingHistory t;
                h1 = (if h \<noteq> [] \<and> h_uuid (last h) = uuid p2 \<and> \<not> truthy_time (endTime (last h))
                      then butlast h @ [(last h)\<lparr>endTime := Some now\<rparr>]
                      else h);
                cs = (if currentSpeaker t = Some (uuid p2) then None else currentSpeaker t)
            in t\<lparr>participants := (participants t)(k \<mapsto> p2),
                 speakingHistory := h1, currentSpeaker := cs\<rparr>)"

definition onStartSpeaking :: "ParticipantTracker \<Rightarrow> int \<Rightarrow> string \<Rightarrow> ParticipantTracker" where
  "onStartSpeaking t now k =
     (case participants t k of
        None \<Rightarrow> t
      | Some p \<Rightarrow>
          let p1 = p\<lparr>isSpeaking := True, speakingStartTime := Some now, lastSpokeAt := Some now\<rparr>;
              previousSpeaker = currentSpeaker t;
              t1 = t\<lparr>participants := (participants t)(k \<mapsto> p1),
                     currentSpeaker := Some (uuid p1),
                     lastSpeakerChange := now,
                     speakingHistory := speakingHistory t @
                       [\<lparr>h_uuid = uuid p1, h_displayName = displayName p1,
                         startTime = now, endTime = None\<rparr>]\<rparr>
          in if truthy_string previousSpeaker \<and> previousSpeaker \<noteq> Some (uuid p1)
             then (case participants t1 (the previousSpeaker) of
                     None \<Rightarrow> t1
                   | Some prevParticipant \<Rightarrow>
                       if isSpeaking prevParticipant
                       then onStopSpeaking t1 now (the previousSpeaker)
                       else t1)
             else t1)"

definition speaking :: "ParticipantTracker \<Rightarrow> string \<Rightarrow> bool" where
  "speaking t k = (case participants t k of None \<Rightarrow> False | Some p \<Rightarrow> isSpeaking p)"

definition modify :: "ParticipantTracker \<Rightarrow> string \<Rightarrow> (participant \<Rightarrow> participant) \<Rightarrow> ParticipantTracker" where
  "modify t k f = (case participants t k of
                     None \<Rightarrow> t
                   | Some p \<Rightarrow> t\<lparr>participants := (participants t)(k \<mapsto> f p)\<rparr>)"

definition updateParticipant :: "ParticipantTracker \<Rightarrow> int \<Rightarrow> participantData \<Rightarrow> ParticipantTracker" where
  "updateParticipant t now pd =
     (let u = data_uuid pd in
      case participants t u of
        None \<Rightarrow> addParticipant t now pd
      | Some _ \<Rightarrow>
          let t1 = (if pd_display_name pd \<noteq> []
                    then modify t u (\<lambda>p. p\<lparr>displayName := pd_display_name pd\<rparr>)
                    else t);
              t2 = (case pd_vad pd of
                      None \<Rightarrow> t1
                    | Some v \<Rightarrow>
                        let wasSpeaking = speaking t1 u;
                            isSpeakingNow = (v = 100)
                        in if \<not> wasSpeaking \<and> isSpeakingNow then onStartSpeaking t1 now u
                           else if wasSpeaking \<and> \<not> isSpeakingNow then onStopSpeaking t1 now u
                           else t1)
          in (case pd_is_muted pd of
                None \<Rightarrow> t2
              | Some m \<Rightarrow>
                  let t3 = modify t2 u (\<lambda>p. p\<lparr>isMuted := Some m\<rparr>)
                  in if m \<and> speaking t3 u then onStopSpeaking t3 now u else t3))"

definition removeParticipant :: "ParticipantTracker \<Rightarrow> int \<Rightarrow> participantData \<Rightarrow> ParticipantTracker" where
  "removeParticipant t now pd =
     (let u = data_uuid pd in
      case participants t u of
        None \<Rightarrow> t
      | Some p \<Rightarrow>
          let t1 = (if isSpeaking p then onStopSpeaking t now u else t)
          in t1\<lparr>participants := (participants t1)(u := None)\<rparr>)"

text \<open>A stage event lists participants as pairs of uuid and \<open>vad\<close> value.\<close>

definition stage_step :: "int \<Rightarrow> string \<times> int \<Rightarrow> ParticipantTracker \<Rightarrow> ParticipantTracker" where
  "stage_step now sp t =
     (case participants t (fst sp) of
        None \<Rightarrow> t
      | Some p \<Rightarrow>
          let isSpeakingNow = (snd sp > 0)
          in if isSpeakingNow \<and> \<not> isSpeaking p then onStartSpeaking t now (fst sp)
             else if \<not> isSpeakingNow \<and> isSpeaking p then onStopSpeaking t now (fst sp)
             else t)"

definition updateStage :: "ParticipantTracker \<Rightarrow> int \<Rightarrow> (string \<times> int) list \<Rightarrow> ParticipantTracker" where
  "updateStage t now stage =
     (case stage of
        [] \<Rightarrow> t
      | activeSpeaker # _ \<Rightarrow>
          let t1 = (if snd activeSpeaker > 0
                    then (case participants t (fst activeSpeaker) of
                            None \<Rightarrow> t
                          | Some p \<Rightarrow> if \<not> isSpeaking p
                                      then onStartSpeaking t now (fst activeSpeaker)
                                      else t)
                    else t)
          in fold (stage_step now) stage t1)"

text \<open>
  The loop of \<open>getSpeakerAtTime\<close>, \<open>for (i = length - 1; i >= 0; i--)\<close>: \<open>scanHistory h n ts\<close>
  is the loop with \<open>n\<close> entries still to visit, so that the entry visited next is
  \<open>h ! (n - 1)\<close>.
\<close>

primrec scanHistory :: "historyEntry list \<Rightarrow> nat \<Rightarrow> int \<Rightarrow> historyEntry option" where
  "scanHistory h 0 ts = None"
| "scanHistory h (Suc i) ts =
     (let entry = h ! i
      in if startTime entry \<le> ts \<and> (\<not> truthy_time (endTime entry) \<or> the (endTime entry) \<ge> ts)
         then Some entry
         else scanHistory h i ts)"

definition getSpeakerAtTime :: "ParticipantTracker \<Rightarrow> int \<Rightarrow> speakerInfo" where
  "getSpeakerAtTime t ts =
     (case scanHistory (speakingHistory t) (length (speakingHistory t)) ts of
        Some entry \<Rightarrow> \<lparr>s_uuid = h_uuid entry, s_displayName = h_displayName entry,
                       confidence = 0.9\<rparr>
      | None \<Rightarrow>
          (case (if truthy_string (currentSpeaker t)
                 then participants t (the (currentSpeaker t)) else None) of
             Some p \<Rightarrow> \<lparr>s_uuid = uuid p, s_displayName = displayName p, confidence = 0.5\<rparr>
           | None \<Rightarrow> \<lparr>s_uuid = ''unknown'', s_displayName = ''Unknown Speaker'',
                       confidence = 0\<rparr>))"

text \<open>
  The events the tracker is wired to (\<open>index.js\<close>): \<open>participant_create\<close>,
  \<open>participant_update\<close>, \<open>participant_delete\<close> and \<open>stage\<close>, each with the clock reading
  at which it is handled.
\<close>

datatype tracker_event =
    ParticipantCreate participantData
  | ParticipantUpdate participantData
  | ParticipantDelete participantData
  | Stage "(string \<times> int) list"

fun handle_event :: "ParticipantTracker \<Rightarrow> int \<times> tracker_event \<Rightarrow> ParticipantTracker" where
  "handle_event t (now, ParticipantCreate pd) = addParticipant t now pd"
| "handle_event t (now, ParticipantUpdate pd) = updateParticipant t now pd"
| "handle_event t (now, ParticipantDelete pd) = removeParticipant t now pd"
| "handle_event t (now, Stage st) = updateStage t now st"

definition handle_events :: "ParticipantTracker \<Rightarrow> (int \<times> tracker_event) list \<Rightarrow> ParticipantTracker" where
  "handle_events t evs = foldl handle_event t evs"

text \<open>Two participants, and the events used in the examples below.\<close>

definition joins :: "string \<Rightarrow> string \<Rightarrow> tracker_event" where
  "joins u n = ParticipantCreate \<lparr>pd_uuid = u, pd_participant_uuid = [], pd_display_name = n,
                                  pd_role = [], pd_vad = None, pd_is_muted = None\<rparr>"

definition vad_update :: "string \<Rightarrow> int \<Rightarrow> tracker_event" where
  "vad_update u v = ParticipantUpdate \<lparr>pd_uuid = u, pd_participant_uuid = [], pd_display_name = [],
                                       pd_role = [], pd_vad = Some v, pd_is_muted = None\<rparr>"

text \<open>Alice starts speaking at 2000; Bob starts speaking at 3000 while she still is.\<close>

definition overlap_events :: "(int \<times> tracker_event) list" where
  "overlap_events = [(1000, joins ''A'' ''Alice''), (1000, joins ''B'' ''Bob''),
                     (2000, vad_update ''A'' 100), (3000, vad_update ''B'' 100)]"

text \<open>Alice speaks from 2000 to 3000; Bob starts speaking at 4000.\<close>

definition turn_events :: "(int \<times> tracker_event) list" where
  "turn_events = [(1000, joins ''A'' ''Alice''), (1000, joins ''B'' ''Bob''),
                  (2000, vad_update ''A'' 100), (3000, vad_update ''A'' 0),
                  (4000, vad_update ''B'' 100)]"

definition overlap_state :: ParticipantTracker where
  "overlap_state = handle_events (new_tracker 0) overlap_events"

definition turn_state :: ParticipantTracker where
  "turn_state = handle_events (new_tracker 0) turn_events"

text \<open>
  An entry of the history read as a time interval, as the lookup reads it: from its
  start time on, up to and including its end time; an entry without an end time (or
  with the falsy end time 0, which \<open>Date.now()\<close> does not produce) has no end yet.
\<close>

definition interval_covers :: "historyEntry \<Rightarrow> int \<Rightarrow> bool" where
  "interval_covers e ts =
     (startTime e \<le> ts \<and> (case endTime e of None \<Rightarrow> True | Some en \<Rightarrow> en = 0 \<or> ts \<le> en))"

section \<open>Bridge client (services/pexip/PexipApiClient.js)\<close>

text \<open>
  The answer of the bridge to a request is an input of the model: an HTTP status, or no
  response at all (a network failure). \<open>axios.post\<close> with its default
  \<open>validateStatus\<close> resolves for a status from 200 to 299 and rejects otherwise; the
  rejection carries the status as \<open>error.response?.status\<close>. \<open>posts\<close> lists the requests
  sent to the bridge. Console output is not part of the model.
\<close>

datatype http_outcome = Status nat | NoResponse

datatype axios_error = AxiosError "nat option"

fun response_status :: "axios_error \<Rightarrow> nat option" where
  "response_status (AxiosError s) = s"

definition axios_post :: "http_outcome \<Rightarrow> axios_error + nat" where
  "axios_post out =
     (case out of
        Status s \<Rightarrow> if 200 \<le> s \<and> s < 300 then Inr s else Inl (AxiosError (Some s))
      | NoResponse \<Rightarrow> Inl (AxiosError None))"

record ice_candidate =
  candidate :: string
  sdpMid :: string
  usernameFragment :: string

datatype request =
    NewCandidateReq "string option" ice_candidate
  | DisconnectReq "string option"
  | ReleaseTokenReq

record PexipApiClient =
  token :: "string option"
  participantUuid :: "string option"
  posts :: "request list"

text \<open>
  \<open>sendIceCandidate\<close> posts the candidate and catches every failure of the request: what
  the bridge answers changes nothing in the state.
\<close>

definition sendIceCandidate :: "PexipApiClient \<Rightarrow> string option \<Rightarrow> ice_candidate \<Rightarrow> PexipApiClient" where
  "sendIceCandidate a callUuid cand = a\<lparr>posts := posts a @ [NewCandidateReq callUuid cand]\<rparr>"

definition disconnectCall :: "PexipApiClient \<Rightarrow> string option \<Rightarrow> http_outcome \<Rightarrow> axios_error + PexipApiClient" where
  "disconnectCall a callUuid out =
     (if \<not> truthy_string callUuid \<or> \<not> truthy_string (token a) then Inr a
      else
        let a1 = a\<lparr>posts := posts a @ [DisconnectReq callUuid]\<rparr>
        in (case axios_post out of
              Inr _ \<Rightarrow> Inr a1
            | Inl error \<Rightarrow>
                if response_status error = Some 403 then Inr a1
                else Inr a1))"

definition releaseToken :: "PexipApiClient \<Rightarrow> http_outcome \<Rightarrow> axios_error + PexipApiClient" where
  "releaseToken a out =
     (if \<not> truthy_string (token a) then Inr a
      else
        let a1 = a\<lparr>posts := posts a @ [ReleaseTokenReq]\<rparr>;
            a2 = (case axios_post out of
                    Inr _ \<Rightarrow> a1
                  | Inl error \<Rightarrow>
                      if response_status error = Some 403 then a1
                      else a1)
        in Inr (a2\<lparr>token := None\<rparr>))"

section \<open>Session orchestrator (services/pexip/PexipConnection.js)\<close>

text \<open>
  \<open>calls\<close> lists the calls the orchestrator makes on its timers and on the media
  handler. A timer is the delay it was set with, in milliseconds. The media handler
  (\<open>WebRTCHandler\<close>) is reduced to what \<open>disconnect()\<close> changes: it stops and forgets
  the audio sinks and closes and forgets the peer connection.
\<close>

record WebRTCHandler =
  pc :: bool
  audioSinks :: "string list"

definition webrtc_disconnect :: "WebRTCHandler \<Rightarrow> WebRTCHandler" where
  "webrtc_disconnect w = w\<lparr>audioSinks := [], pc := False\<rparr>"

datatype call = ClearTimeout int | SetTimeout int | WebrtcDisconnect

record PexipConnection =
  api :: PexipApiClient
  webrtc :: WebRTCHandler
  callUuid :: "string option"
  eventPollTimeout :: "int option"
  isRunning :: bool
  pendingIceCandidates :: "ice_candidate list"
  tokenRefreshTimer :: "int option"
  flushCursor :: "nat option"
  calls :: "call list"

text \<open>The state the constructor leaves.\<close>

definition new_connection :: PexipConnection where
  "new_connection =
     \<lparr>api = \<lparr>token = None, participantUuid = None, posts = []\<rparr>,
      webrtc = \<lparr>pc = False, audioSinks = []\<rparr>,
      callUuid = None, eventPollTimeout = None, isRunning = False,
      pendingIceCandidates = [], tokenRefreshTimer = None, flushCursor = None, calls = []\<rparr>"

subsection \<open>Token refresh timer\<close>

text \<open>
  \<open>expiresInSeconds\<close> is the integer \<open>parseInt\<close> made of the bridge's answer.
  \<open>startTokenRefresh\<close> clears a timer that is pending and sets a new one; what the timer
  does when it fires is not part of the model.
\<close>

definition refreshBuffer :: "int \<Rightarrow> int" where
  "refreshBuffer expiresInSeconds = min 30 \<lfloor>(of_int expiresInSeconds :: rat) * 0.25\<rfloor>"

definition refreshInterval :: "int \<Rightarrow> int" where
  "refreshInterval expiresInSeconds = (expiresInSeconds - refreshBuffer expiresInSeconds) * 1000"

definition startTokenRefresh :: "PexipConnection \<Rightarrow> int \<Rightarrow> PexipConnection" where
  "startTokenRefresh c expiresInSeconds =
     (let c1 = (case tokenRefreshTimer c of
                  Some timer \<Rightarrow> c\<lparr>calls := calls c @ [ClearTimeout timer]\<rparr>
                | None \<Rightarrow> c)
      in c1\<lparr>calls := calls c1 @ [SetTimeout (refreshInterval expiresInSeconds)],
            tokenRefreshTimer := Some (refreshInterval expiresInSeconds)\<rparr>)"

definition stopTokenRefresh :: "PexipConnection \<Rightarrow> PexipConnection" where
  "stopTokenRefresh c =
     (case tokenRefreshTimer c of
        Some timer \<Rightarrow> c\<lparr>calls := calls c @ [ClearTimeout timer], tokenRefreshTimer := None\<rparr>
      | None \<Rightarrow> c)"

subsection \<open>Disconnect\<close>

text \<open>
  \<open>disconnect()\<close> runs synchronously up to its 100 ms delay (\<open>disconnect_begin\<close>) and
  calls the bridge after it (\<open>disconnect_finish\<close>, with the bridge's answers to
  \<open>disconnectCall\<close> and \<open>releaseToken\<close>); an exception of either call is caught and ends
  the \<open>try\<close> block.
\<close>

definition disconnect_begin :: "PexipConnection \<Rightarrow> PexipConnection" where
  "disconnect_begin c =
     (let c1 = c\<lparr>isRunning := False\<rparr>;
          c2 = stopTokenRefresh c1;
          c3 = (case eventPollTimeout c2 of
                  Some timer \<Rightarrow> c2\<lparr>calls := calls c2 @ [ClearTimeout timer],
                                   eventPollTimeout := None\<rparr>
                | None \<Rightarrow> c2);
          c4 = c3\<lparr>webrtc := webrtc_disconnect (webrtc c3), calls := calls c3 @ [WebrtcDisconnect]\<rparr>
      in c4\<lparr>calls := calls c4 @ [SetTimeout 100]\<rparr>)"

definition disconnect_finish :: "PexipConnection \<Rightarrow> http_outcome \<Rightarrow> http_outcome \<Rightarrow> PexipConnection" where
  "disconnect_finish c out1 out2 =
     (case disconnectCall (api c) (callUuid c) out1 of
        Inl error \<Rightarrow> c
      | Inr a1 \<Rightarrow>
          (case releaseToken a1 out2 of
             Inl error \<Rightarrow> c\<lparr>api := a1\<rparr>
           | Inr a2 \<Rightarrow> c\<lparr>api := a2\<rparr>))"

definition disconnect :: "PexipConnection \<Rightarrow> http_outcome \<Rightarrow> http_outcome \<Rightarrow> PexipConnection" where
  "disconnect c out1 out2 =
     (if \<not> isRunning c then c
      else disconnect_finish (disconnect_begin c) out1 out2)"

text \<open>
  A session as \<open>connect()\<close> leaves it: token and call identifier set, the refresh timer
  of a 120 s token pending, the peer connection open with one audio sink.
\<close>

definition connected_example :: PexipConnection where
  "connected_example =
     \<lparr>api = \<lparr>token = Some ''tok'', participantUuid = Some ''p-1'', posts = []\<rparr>,
      webrtc = \<lparr>pc = True, audioSinks = [''track-1'']\<rparr>,
      callUuid = Some ''call-1'', eventPollTimeout = None, isRunning = True,
      pendingIceCandidates = [], tokenRefreshTimer = Some 90000, flushCursor = None,
      calls = [SetTimeout 90000]\<rparr>"

subsection \<open>Local ICE candidates\<close>

text \<open>
  The code runs in segments between \<open>await\<close>s, and the candidate handler can run
  between any two of them. The segments that touch the queue:
  \<^item> \<open>iceCandidateHandler\<close>: the handler set with \<open>setIceCandidateHandler\<close>;
  \<^item> \<open>joinCallReturned\<close>: \<open>connect()\<close> from the return of \<open>joinCall\<close> to the first \<open>await\<close>
    of the flush loop (the call identifier is stored and, if the queue is not empty, the
    first queued candidate is sent);
  \<^item> \<open>flushResumed\<close>: the flush loop from the return of one \<open>await sendIceCandidate\<close> to
    the next (the next queued candidate is sent) or to the end of the loop (the queue is
    replaced by the empty array).
  \<open>flushCursor\<close> is the position of the loop's iterator in the queue while the loop is
  suspended; it is \<open>None\<close> when no flush is in progress.
\<close>

definition iceCandidateHandler :: "PexipConnection \<Rightarrow> ice_candidate \<Rightarrow> PexipConnection" where
  "iceCandidateHandler c cand =
     (if \<not> truthy_string (callUuid c)
      then c\<lparr>pendingIceCandidates := pendingIceCandidates c @ [cand]\<rparr>
      else c\<lparr>api := sendIceCandidate (api c) (callUuid c) cand\<rparr>)"

definition joinCallReturned :: "PexipConnection \<Rightarrow> string option \<Rightarrow> PexipConnection" where
  "joinCallReturned c joined =
     (let c1 = c\<lparr>callUuid := joined\<rparr>
      in if length (pendingIceCandidates c1) > 0
         then c1\<lparr>api := sendIceCandidate (api c1) (callUuid c1) (pendingIceCandidates c1 ! 0),
                 flushCursor := Some 1\<rparr>
         else c1)"

definition flushResumed :: "PexipConnection \<Rightarrow> PexipConnection" where
  "flushResumed c =
     (case flushCursor c of
        None \<Rightarrow> c
      | Some i \<Rightarrow>
          if i < length (pendingIceCandidates c)
          then c\<lparr>api := sendIceCandidate (api c) (callUuid c) (pendingIceCandidates c ! i),
                 flushCursor := Some (i + 1)\<rparr>
          else c\<lparr>pendingIceCandidates := [], flushCursor := None\<rparr>)"

datatype conn_event =
    IceCandidate ice_candidate
  | JoinCallReturned "string option"
  | FlushResumed

fun step :: "PexipConnection \<Rightarrow> conn_event \<Rightarrow> PexipConnection" where
  "step c (IceCandidate cand) = iceCandidateHandler c cand"
| "step c (JoinCallReturned joined) = joinCallReturned c joined"
| "step c FlushResumed = flushResumed c"

definition run :: "PexipConnection \<Rightarrow> conn_event list \<Rightarrow> PexipConnection" where
  "run c evs = foldl step c evs"

text \<open>The candidates a trace delivers, and the number of times it resumes the flush.\<close>

fun candidates_of :: "conn_event list \<Rightarrow> ice_candidate list" where
  "candidates_of [] = []"
| "candidates_of (IceCandidate cand # evs) = cand # candidates_of evs"
| "candidates_of (_ # evs) = candidates_of evs"

fun resumes :: "conn_event list \<Rightarrow> nat" where
  "resumes [] = 0"
| "resumes (FlushResumed # evs) = Suc (resumes evs)"
| "resumes (_ # evs) = resumes evs"

fun no_join :: "conn_event list \<Rightarrow> bool" where
  "no_join [] = True"
| "no_join (JoinCallReturned _ # evs) = False"
| "no_join (_ # evs) = no_join evs"

text \<open>Candidates used in the examples.\<close>

definition cand :: "string \<Rightarrow> ice_candidate" where
  "cand s = \<lparr>candidate = s, sdpMid = ''0'', usernameFragment = ''u''\<rparr>"

section \<open>Properties of the audio capture buffer\<close>

lemma addSamples_None:
  "length (buffer b) + length smp < targetSamples b \<Longrightarrow>
   addSamples b now smp
     = (b\<lparr>buffer := buffer b @ smp, totalSamples := totalSamples b + length smp\<rparr>, None)"
  by (simp add: addSamples_def Let_def)

lemma addSamples_Some:
  assumes "targetSamples b \<le> length (buffer b) + length smp"
  shows "\<exists>b' cd. addSamples b now smp = (b', Some cd)
     \<and> samples cd = map word_of_int (take (targetSamples b) (buffer b @ smp))
     \<and> buffer b' = drop (targetSamples b) (buffer b @ smp)
     \<and> chunkNumber cd = chunksCreated b + 1
     \<and> chunksCreated b' = chunksCreated b + 1
     \<and> \<not> isFinal cd
     \<and> targetSamples b' = targetSamples b"
  using assms by (simp add: addSamples_def createChunk_def saveChunkToFile_def Let_def)

lemma length_concat_const:
  "\<forall>x \<in> set xs. length (f x) = k \<Longrightarrow> length (concat (map f xs)) = length xs * k"
  by (induction xs) simp_all

lemma exact_multiple:
  fixes a r n t :: nat
  assumes "a * t + r = n * t" and "r < t"
  shows "a = n \<and> r = 0"
proof -
  have "(a * t + r) mod t = r" using assms(2) by simp
  moreover have "(n * t) mod t = 0" by simp
  ultimately have r0: "r = 0" using assms(1) by simp
  with assms have "a * t = n * t" "0 < t" by simp_all
  then show ?thesis using r0 by simp
qed

text \<open>
  While every frame is at most one chunk long, the buffer stays below one chunk
  between calls, every chunk is full, the chunks followed by the buffered rest are the
  input, and the chunk numbers count up by one.
\<close>

lemma feed_invariant:
  assumes "0 < targetSamples b" and "length (buffer b) < targetSamples b"
    and "\<forall>f \<in> set fs. length (snd f) \<le> targetSamples b"
    and "feed b fs = (b', cs)"
  shows "targetSamples b' = targetSamples b
     \<and> length (buffer b') < targetSamples b
     \<and> concat (map samples cs) @ map word_of_int (buffer b')
         = map word_of_int (buffer b @ concat (map snd fs))
     \<and> (\<forall>cd \<in> set cs. length (samples cd) = targetSamples b \<and> \<not> isFinal cd)
     \<and> map chunkNumber cs = [chunksCreated b + 1 ..< chunksCreated b + 1 + length cs]
     \<and> chunksCreated b' = chunksCreated b + length cs"
  using assms
proof (induction fs arbitrary: b b' cs)
  case Nil
  then show ?case by simp
next
  case (Cons f fs)
  obtain now smp where f: "f = (now, smp)" by (cases f)
  obtain b1 r where a: "addSamples b now smp = (b1, r)" by (cases "addSamples b now smp")
  obtain b2 cs2 where fd: "feed b1 fs = (b2, cs2)" by (cases "feed b1 fs")
  from Cons.prems(4) f a fd
  have res: "b' = b2" "cs = (case r of None \<Rightarrow> [] | Some cd \<Rightarrow> [cd]) @ cs2"
    by simp_all
  have smp_le: "length smp \<le> targetSamples b" using Cons.prems(3) f by simp
  have rest: "\<forall>f \<in> set fs. length (snd f) \<le> targetSamples b" using Cons.prems(3) by simp
  show ?case
  proof (cases "length (buffer b) + length smp < targetSamples b")
    case True
    from addSamples_None[OF True, of now] a
    have b1: "b1 = b\<lparr>buffer := buffer b @ smp, totalSamples := totalSamples b + length smp\<rparr>"
      and r: "r = None" by simp_all
    have p1: "0 < targetSamples b1" "length (buffer b1) < targetSamples b1"
      "\<forall>f \<in> set fs. length (snd f) \<le> targetSamples b1"
      using Cons.prems(1) True rest by (simp_all add: b1)
    from Cons.IH[OF p1 fd] show ?thesis
      by (simp add: res r b1 f)
  next
    case False
    then have ge: "targetSamples b \<le> length (buffer b) + length smp" by simp
    from addSamples_Some[OF ge, of now] a obtain cd where r: "r = Some cd"
      and cd: "samples cd = map word_of_int (take (targetSamples b) (buffer b @ smp))"
      and b1: "buffer b1 = drop (targetSamples b) (buffer b @ smp)"
      and num: "chunkNumber cd = chunksCreated b + 1"
      and cnt: "chunksCreated b1 = chunksCreated b + 1"
      and fin: "\<not> isFinal cd"
      and ts: "targetSamples b1 = targetSamples b"
      by auto
    have len1: "length (buffer b1) < targetSamples b"
      using Cons.prems(2) smp_le by (simp add: b1)
    have p1: "0 < targetSamples b1" "length (buffer b1) < targetSamples b1"
      "\<forall>f \<in> set fs. length (snd f) \<le> targetSamples b1"
      using Cons.prems(1) len1 rest by (simp_all add: ts)
    note ih = Cons.IH[OF p1 fd]
    have lcd: "length (samples cd) = targetSamples b"
      using ge by (simp add: cd del: take_append)
    have cc: "samples cd @ map word_of_int (buffer b1) = map word_of_int (buffer b @ smp)"
      unfolding cd b1 by (simp only: map_append[symmetric] append_take_drop_id)
    have "concat (map samples cs) @ map word_of_int (buffer b')
        = samples cd @ (concat (map samples cs2) @ map word_of_int (buffer b2))"
      by (simp add: res r)
    also have "\<dots> = samples cd @ map word_of_int (buffer b1 @ concat (map snd fs))"
      using ih by simp
    also have "\<dots> = map word_of_int (buffer b @ concat (map snd (f # fs)))"
      using cc by (simp add: f)
    finally have c3: "concat (map samples cs) @ map word_of_int (buffer b')
        = map word_of_int (buffer b @ concat (map snd (f # fs)))" .
    have c5: "map chunkNumber cs = [chunksCreated b + 1 ..< chunksCreated b + 1 + length cs]"
    proof -
      have m2: "map chunkNumber cs2 = [chunksCreated b + 2 ..< chunksCreated b + 2 + length cs2]"
        using ih by (simp add: cnt)
      have "chunksCreated b + 1 < chunksCreated b + 1 + length cs"
        by (simp add: res r)
      from upt_conv_Cons[OF this]
      have "[chunksCreated b + 1 ..< chunksCreated b + 1 + length cs]
          = (chunksCreated b + 1) # [chunksCreated b + 2 ..< chunksCreated b + 2 + length cs2]"
        by (simp add: res r)
      then show ?thesis by (simp add: res r num m2)
    qed
    show ?thesis
      using ih c3 c5 lcd fin by (simp add: res r ts cnt)
  qed
qed

text \<open>
  Claim C3, as stated, at a concrete input: the buffer with \<open>targetSamples = 2\<close> is fed
  \<open>2 * 2\<close> samples in one call and produces one chunk, not two.
\<close>

theorem C3_single_call_counterexample:
  "targetSamples buffer2 = 2 \<and> length [1, 2, 3, 4 :: int] = 2 * targetSamples buffer2
   \<and> length (snd (feed buffer2 [(0, [1, 2, 3, 4])])) = 1
   \<and> buffer (fst (feed buffer2 [(0, [1, 2, 3, 4])])) = [3, 4]"
  by (simp add: addSamples_def createChunk_def saveChunkToFile_def Let_def buffer2_def)

text \<open>
  Claim C3, amended: when no single \<open>addSamples\<close> call adds more than \<open>targetSamples\<close>
  samples, feeding an empty buffer (with \<open>targetSamples > 0\<close>) a total of exactly
  \<open>N * targetSamples\<close> samples produces exactly \<open>N\<close> chunks, each of \<open>targetSamples\<close>
  samples; the chunks in order are the input in order (as 16-bit samples); the chunk
  numbers are consecutive, hence strictly increasing; nothing is left in the buffer.
\<close>

theorem C3_feed_exact_chunks:
  assumes "0 < targetSamples b" and "buffer b = []"
    and "\<forall>f \<in> set fs. length (snd f) \<le> targetSamples b"
    and "length (concat (map snd fs)) = N * targetSamples b"
    and "feed b fs = (b', cs)"
  shows "length cs = N
     \<and> (\<forall>cd \<in> set cs. length (samples cd) = targetSamples b \<and> \<not> isFinal cd)
     \<and> concat (map samples cs) = map word_of_int (concat (map snd fs))
     \<and> map chunkNumber cs = [chunksCreated b + 1 ..< chunksCreated b + 1 + N]
     \<and> sorted_wrt (<) (map chunkNumber cs)
     \<and> buffer b' = []"
proof -
  have lt: "length (buffer b) < targetSamples b" using assms(1,2) by simp
  note inv = feed_invariant[OF assms(1) lt assms(3) assms(5)]
  from inv have full: "\<forall>cd \<in> set cs. length (samples cd) = targetSamples b" by simp
  have "length (concat (map samples cs) @ map word_of_int (buffer b') :: int16 list)
      = length (map word_of_int (buffer b @ concat (map snd fs)) :: int16 list)"
    using inv by simp
  then have "length cs * targetSamples b + length (buffer b') = N * targetSamples b"
    using assms(2,4) by (simp add: length_concat_const[OF full])
  moreover have "length (buffer b') < targetSamples b" using inv by simp
  ultimately have n: "length cs = N" and e: "length (buffer b') = 0"
    using exact_multiple by blast+
  have "map chunkNumber cs = [chunksCreated b + 1 ..< chunksCreated b + 1 + length cs]"
    using inv by blast
  then have srt: "sorted_wrt (<) (map chunkNumber cs)"
    by (simp only: sorted_wrt_upt)
  show ?thesis using inv n e srt assms(2) by simp
qed

theorem C3_feed_exact_chunks_witness:
  "0 < targetSamples buffer2 \<and> buffer buffer2 = []
   \<and> list_all (\<lambda>f. length (snd f) \<le> targetSamples buffer2)
        [(0 :: int, [1]), (1, [2, 3]), (2, [4 :: int])]
   \<and> length (concat (map snd [(0 :: int, [1]), (1, [2, 3]), (2, [4 :: int])])) = 2 * targetSamples buffer2
   \<and> length (snd (feed buffer2 [(0, [1]), (1, [2, 3]), (2, [4])])) = 2
   \<and> map samples (snd (feed buffer2 [(0, [1]), (1, [2, 3]), (2, [4])])) = [[1, 2], [3, 4]]
   \<and> map chunkNumber (snd (feed buffer2 [(0, [1]), (1, [2, 3]), (2, [4])])) = [1, 2]"
  using C3_feed_exact_chunks[of buffer2 "[(0, [1]), (1, [2, 3]), (2, [4])]" 2
      "fst (feed buffer2 [(0, [1]), (1, [2, 3]), (2, [4])])"
      "snd (feed buffer2 [(0, [1]), (1, [2, 3]), (2, [4])])"]
  by (simp add: addSamples_def createChunk_def saveChunkToFile_def Let_def buffer2_def)

text \<open>
  Claim C6: a buffer holding a remainder of \<open>K\<close> samples, \<open>0 < K < targetSamples\<close>, is
  flushed into exactly one chunk of those \<open>K\<close> samples with \<open>isFinal\<close> set; the buffer
  is empty afterwards, so a further \<open>flush\<close> returns null and leaves the state as it is;
  \<open>flush\<close> on an empty buffer returns null.
\<close>

theorem C6_flush_remainder:
  "(0 < length (buffer b) \<and> length (buffer b) < targetSamples b \<longrightarrow>
      (\<exists>b' cd. flush b now = (b', Some cd)
         \<and> samples cd = map word_of_int (buffer b)
         \<and> length (samples cd) = length (buffer b)
         \<and> isFinal cd
         \<and> buffer b' = []
         \<and> flush b' now' = (b', None)
         \<and> addSamples b' now' [] = (b', None)))
   \<and> (buffer b = [] \<longrightarrow> flush b now = (b, None))"
  by (auto simp add: flush_def addSamples_def saveChunkToFile_def Let_def)

theorem C6_flush_remainder_witness:
  "0 < length (buffer (buffer2\<lparr>buffer := [7]\<rparr>))
   \<and> length (buffer (buffer2\<lparr>buffer := [7]\<rparr>)) < targetSamples (buffer2\<lparr>buffer := [7]\<rparr>)
   \<and> map samples (case snd (flush (buffer2\<lparr>buffer := [7]\<rparr>) 5) of None \<Rightarrow> [] | Some cd \<Rightarrow> [cd]) = [[7]]
   \<and> buffer (fst (flush (buffer2\<lparr>buffer := [7]\<rparr>) 5)) = []
   \<and> flush buffer2 5 = (buffer2, None)"
  using C6_flush_remainder[of "buffer2\<lparr>buffer := [7]\<rparr>" 5 6]
    C6_flush_remainder[of buffer2 5 6]
  by (auto simp add: buffer2_def)

text \<open>
  Claim C10: one \<open>addSamples\<close> call returns at most one chunk, whatever it adds: its
  result is null, with all samples buffered, or one chunk of the first \<open>targetSamples\<close>
  buffered samples, with every sample after them left in the buffer. When the call
  leaves two or more chunk lengths in the buffer, the chunk has exactly \<open>targetSamples\<close>
  samples, at least one more chunk length stays buffered, and the next \<open>addSamples\<close>
  call, even one that adds nothing, emits the next \<open>targetSamples\<close> samples.
\<close>

theorem C10_addSamples_at_most_one_chunk:
  "(case addSamples b now smp of
      (b', None) \<Rightarrow> buffer b' = buffer b @ smp \<and> length (buffer b @ smp) < targetSamples b
    | (b', Some cd) \<Rightarrow>
        samples cd = map word_of_int (take (targetSamples b) (buffer b @ smp))
        \<and> buffer b' = drop (targetSamples b) (buffer b @ smp))
   \<and> (2 * targetSamples b \<le> length (buffer b @ smp) \<longrightarrow>
        (\<exists>b' cd. addSamples b now smp = (b', Some cd)
           \<and> length (samples cd) = targetSamples b
           \<and> targetSamples b \<le> length (buffer b')
           \<and> (\<exists>b'' cd'. addSamples b' now' [] = (b'', Some cd')
                 \<and> samples cd' = map word_of_int (take (targetSamples b) (buffer b')))))"
  by (auto simp add: addSamples_def createChunk_def saveChunkToFile_def Let_def
      simp del: take_append drop_append)

theorem C10_addSamples_at_most_one_chunk_witness:
  "2 * targetSamples buffer2 \<le> length (buffer buffer2 @ [1, 2, 3, 4, 5])
   \<and> map_option samples (snd (addSamples buffer2 0 [1, 2, 3, 4, 5])) = Some [1, 2]
   \<and> buffer (fst (addSamples buffer2 0 [1, 2, 3, 4, 5])) = [3, 4, 5]
   \<and> map_option samples (snd (addSamples (fst (addSamples buffer2 0 [1, 2, 3, 4, 5])) 1 []))
       = Some [3, 4]"
  using C10_addSamples_at_most_one_chunk[where b = buffer2 and now = 0
      and smp = "[1, 2, 3, 4, 5]" and now' = 1]
  by (auto simp add: buffer2_def addSamples_def createChunk_def Let_def)

section \<open>Properties of the resampler\<close>

lemma floor_quot:
  assumes "0 < a" and "0 < b"
  shows "nat \<lfloor>(of_nat n :: rat) / (of_nat a / of_nat b)\<rfloor> = (n * b) div a"
proof -
  have "(of_nat n :: rat) / (of_nat a / of_nat b) = of_nat (n * b) / of_nat a"
    by simp
  then have "\<lfloor>(of_nat n :: rat) / (of_nat a / of_nat b)\<rfloor> = int ((n * b) div a)"
    by (simp only: floor_divide_of_nat_eq)
  then show ?thesis by simp
qed

lemma length_downsample48to16: "length (downsample48to16 xs) = length xs div 3"
  by (simp add: downsample48to16_def)

lemma length_downsample48to24: "length (downsample48to24 xs) = length xs div 2"
  by (simp add: downsample48to24_def)

lemma length_upsample16to24: "length (upsample16to24 xs) = (length xs * 3) div 2"
proof -
  have "(of_nat (length xs) :: rat) * (3 / 2) = of_nat (length xs * 3) / of_nat 2" by simp
  then have "\<lfloor>(of_nat (length xs) :: rat) * (3 / 2)\<rfloor> = int ((length xs * 3) div 2)"
    by (simp only: floor_divide_of_nat_eq)
  then show ?thesis by (simp add: upsample16to24_def Let_def)
qed

text \<open>The fallback branch: nearest-sample decimation by the ratio of the rates.\<close>

lemma resampleAudio_fallback_length:
  assumes "a \<noteq> b" and "0 < a" and "0 < b"
    and "(a, b) \<notin> {(48000, 16000), (48000, 24000), (16000, 24000)}"
  shows "\<exists>ys. resampleAudio xs a b = Inr ys \<and> length ys = (length xs * b) div a"
  using assms floor_quot[of a b "length xs"] by (auto simp add: resampleAudio_def Let_def)

text \<open>
  Claim C7, as stated, at a concrete input: five samples at 48000 Hz become one sample at
  16000 Hz and three samples back at 48000 Hz, two fewer than the five that went in.
\<close>

theorem C7_roundtrip_48_16_counterexample:
  "resampleAudio [1, 2, 3, 4, 5] 48000 16000 = Inr [1]
   \<and> resampleAudio [1] 16000 48000 = Inr [1, 1, 1]
   \<and> length [1, 1, 1 :: int16] + 1 < length [1, 2, 3, 4, 5 :: int16]"
  by (simp add: resampleAudio_def downsample48to16_def sample_at_def upt_rec)

text \<open>
  Claim C7, amended: for every input of \<open>N\<close> samples and every supported rate pair,
  resampling to the target rate and back succeeds and yields at most \<open>N\<close> and at least
  \<open>N - 2\<close> samples; for every pair other than 48000 to 16000 and back it yields at least
  \<open>N - 1\<close> samples.
\<close>

theorem C7_roundtrip_length:
  assumes "(a, b) \<in> supported_pairs"
  shows "\<exists>ys zs. resampleAudio xs a b = Inr ys \<and> resampleAudio ys b a = Inr zs
      \<and> length zs \<le> length xs \<and> length xs \<le> length zs + 2
      \<and> ((a, b) \<noteq> (48000, 16000) \<longrightarrow> length xs \<le> length zs + 1)"
proof -
  from assms consider "a = 48000 \<and> b = 16000" | "a = 16000 \<and> b = 48000"
    | "a = 48000 \<and> b = 24000" | "a = 24000 \<and> b = 48000"
    | "a = 16000 \<and> b = 24000" | "a = 24000 \<and> b = 16000"
    by (auto simp add: supported_pairs_def)
  then show ?thesis
  proof cases
    case 1
    obtain zs where "resampleAudio (downsample48to16 xs) 16000 48000 = Inr zs"
      "length zs = (length (downsample48to16 xs) * 48000) div 16000"
      using resampleAudio_fallback_length[of 16000 48000 "downsample48to16 xs"] by auto
    then show ?thesis using 1 by (simp add: resampleAudio_def length_downsample48to16) arith
  next
    case 2
    obtain ys where "resampleAudio xs 16000 48000 = Inr ys"
      "length ys = (length xs * 48000) div 16000"
      using resampleAudio_fallback_length[of 16000 48000 xs] by auto
    then show ?thesis using 2 by (simp add: resampleAudio_def length_downsample48to16)
  next
    case 3
    obtain zs where "resampleAudio (downsample48to24 xs) 24000 48000 = Inr zs"
      "length zs = (length (downsample48to24 xs) * 48000) div 24000"
      using resampleAudio_fallback_length[of 24000 48000 "downsample48to24 xs"] by auto
    then show ?thesis using 3 by (simp add: resampleAudio_def length_downsample48to24) arith
  next
    case 4
    obtain ys where "resampleAudio xs 24000 48000 = Inr ys"
      "length ys = (length xs * 48000) div 24000"
      using resampleAudio_fallback_length[of 24000 48000 xs] by auto
    then show ?thesis using 4 by (simp add: resampleAudio_def length_downsample48to24)
  next
    case 5
    obtain zs where "resampleAudio (upsample16to24 xs) 24000 16000 = Inr zs"
      "length zs = (length (upsample16to24 xs) * 16000) div 24000"
      using resampleAudio_fallback_length[of 24000 16000 "upsample16to24 xs"] by auto
    then show ?thesis using 5 by (simp add: resampleAudio_def length_upsample16to24) arith
  next
    case 6
    obtain ys where "resampleAudio xs 24000 16000 = Inr ys"
      "length ys = (length xs * 16000) div 24000"
      using resampleAudio_fallback_length[of 24000 16000 xs] by auto
    then show ?thesis using 6 by (simp add: resampleAudio_def length_upsample16to24) arith
  qed
qed

theorem C7_roundtrip_length_witness:
  "(48000, 24000) \<in> supported_pairs \<and> (48000, 24000) \<noteq> (48000 :: nat, 16000 :: nat)
   \<and> resampleAudio [1, 2, 3] 48000 24000 = Inr [1]
   \<and> resampleAudio [1] 24000 48000 = Inr [1, 1]
   \<and> length [1, 2, 3 :: int16] \<le> length [1, 1 :: int16] + 1"
  using C7_roundtrip_length[of 48000 24000 "[1, 2, 3]"]
  by (simp add: supported_pairs_def resampleAudio_def downsample48to24_def sample_at_def upt_rec)

section \<open>Properties of the speaker attribution\<close>

lemmas tracker_defs = handle_events_def joins_def vad_update_def
  new_tracker_def addParticipant_def updateParticipant_def onStartSpeaking_def onStopSpeaking_def
  data_uuid_def or_str_def truthy_time_def truthy_string_def speaking_def modify_def Let_def

lemma turn_state_fields:
  "speakingHistory turn_state =
     [\<lparr>h_uuid = ''A'', h_displayName = ''Alice'', startTime = 2000, endTime = Some 3000\<rparr>,
      \<lparr>h_uuid = ''B'', h_displayName = ''Bob'', startTime = 4000, endTime = None\<rparr>]"
  "currentSpeaker turn_state = Some ''B''"
  "map_option displayName (participants turn_state ''B'') = Some ''Bob''"
  "map_option uuid (participants turn_state ''B'') = Some ''B''"
  by (simp_all add: turn_state_def turn_events_def tracker_defs)

text \<open>
  Claim C2 at a concrete input. Alice and Bob join; Alice starts speaking at 2000; Bob
  starts speaking at 3000. \<open>onStartSpeaking\<close> appends Bob's entry before it stops Alice,
  and \<open>onStopSpeaking\<close> closes only the last entry of the history and only if it is the
  stopping participant's: Alice's entry keeps its null end time beside Bob's open entry,
  and her later stop event (at 4000) changes nothing in the history.
\<close>

theorem C2_previous_interval_left_open:
  "speakingHistory overlap_state =
     [\<lparr>h_uuid = ''A'', h_displayName = ''Alice'', startTime = 2000, endTime = None\<rparr>,
      \<lparr>h_uuid = ''B'', h_displayName = ''Bob'', startTime = 3000, endTime = None\<rparr>]
   \<and> length (filter (\<lambda>e. endTime e = None) (speakingHistory overlap_state)) = 2
   \<and> currentSpeaker overlap_state = Some ''B''
   \<and> speakingHistory (handle_events overlap_state [(4000, vad_update ''A'' 0)])
       = speakingHistory overlap_state"
  by (simp add: overlap_state_def overlap_events_def tracker_defs)

lemma interval_covers_iff:
  "interval_covers e ts \<longleftrightarrow>
   startTime e \<le> ts \<and> (\<not> truthy_time (endTime e) \<or> the (endTime e) \<ge> ts)"
  by (auto simp add: interval_covers_def truthy_time_def split: option.splits)

lemma scanHistory_none:
  "(\<And>j. j < n \<Longrightarrow> \<not> interval_covers (h ! j) ts) \<Longrightarrow> scanHistory h n ts = None"
  by (induction n) (simp_all add: interval_covers_iff Let_def)

lemma scanHistory_newest:
  "i < n \<Longrightarrow> interval_covers (h ! i) ts \<Longrightarrow>
   (\<And>j. i < j \<Longrightarrow> j < n \<Longrightarrow> \<not> interval_covers (h ! j) ts) \<Longrightarrow>
   scanHistory h n ts = Some (h ! i)"
proof (induction n)
  case 0
  then show ?case by simp
next
  case (Suc n)
  show ?case
  proof (cases "i = n")
    case True
    then show ?thesis using Suc.prems(2) by (simp add: interval_covers_iff Let_def)
  next
    case False
    then have "i < n" using Suc.prems(1) by simp
    have ih: "scanHistory h n ts = Some (h ! i)"
      using Suc.IH[OF \<open>i < n\<close> Suc.prems(2)] Suc.prems(3) by simp
    have "\<not> interval_covers (h ! n) ts" using Suc.prems(3)[of n] \<open>i < n\<close> by simp
    then have "\<not> (startTime (h ! n) \<le> ts
        \<and> (\<not> truthy_time (endTime (h ! n)) \<or> the (endTime (h ! n)) \<ge> ts))"
      by (simp add: interval_covers_iff)
    then show ?thesis using ih by (auto simp add: Let_def)
  qed
qed

text \<open>
  Claim C4, as stated, at a concrete input. Alice spoke from 2000 to 3000 and Bob has
  been speaking since 4000. At timestamp 3000 no interval \<open>[start, end)\<close> contains the
  timestamp and a speaker (Bob) is currently open, so the claim promises Bob with
  confidence 0.5; the lookup compares with \<open>endTime >= timestamp\<close> and returns Alice
  with confidence 0.9.
\<close>

theorem C4_end_time_inclusive_counterexample:
  "speakingHistory turn_state =
     [\<lparr>h_uuid = ''A'', h_displayName = ''Alice'', startTime = 2000, endTime = Some 3000\<rparr>,
      \<lparr>h_uuid = ''B'', h_displayName = ''Bob'', startTime = 4000, endTime = None\<rparr>]
   \<and> \<not> (2000 \<le> (3000 :: int) \<and> (3000 :: int) < 3000) \<and> \<not> (4000 \<le> (3000 :: int))
   \<and> currentSpeaker turn_state = Some ''B''
   \<and> getSpeakerAtTime turn_state 3000
       = \<lparr>s_uuid = ''A'', s_displayName = ''Alice'', confidence = 0.9\<rparr>
   \<and> confidence (getSpeakerAtTime turn_state 3000) \<noteq> 0.5"
  by (simp add: getSpeakerAtTime_def turn_state_fields truthy_time_def Let_def numeral_2_eq_2)

text \<open>
  Claim C4, amended: for every tracker state and every timestamp \<open>t\<close>, an entry covers
  \<open>t\<close> when its start is at most \<open>t\<close> and it is still open or its end is at least \<open>t\<close>
  (the end time is included). The newest entry that covers \<open>t\<close> gives the result, with
  confidence 0.9; if no entry covers \<open>t\<close> and the current speaker is set and is a known
  participant, the result is that participant with confidence 0.5; if no entry covers
  \<open>t\<close> and there is no current speaker (or none that is a known participant), the
  result is the sentinel \<open>unknown\<close> with confidence 0.
\<close>

theorem C4_getSpeakerAtTime:
  "(\<forall>i. i < length (speakingHistory t) \<and> interval_covers (speakingHistory t ! i) ts
        \<and> (\<forall>j. i < j \<and> j < length (speakingHistory t)
               \<longrightarrow> \<not> interval_covers (speakingHistory t ! j) ts)
      \<longrightarrow> getSpeakerAtTime t ts
          = \<lparr>s_uuid = h_uuid (speakingHistory t ! i),
             s_displayName = h_displayName (speakingHistory t ! i), confidence = 0.9\<rparr>)
   \<and> ((\<forall>j. j < length (speakingHistory t) \<longrightarrow> \<not> interval_covers (speakingHistory t ! j) ts)
      \<longrightarrow> (\<forall>u p. currentSpeaker t = Some u \<and> u \<noteq> [] \<and> participants t u = Some p
             \<longrightarrow> getSpeakerAtTime t ts
                 = \<lparr>s_uuid = uuid p, s_displayName = displayName p, confidence = 0.5\<rparr>)
        \<and> (\<not> truthy_string (currentSpeaker t)
             \<or> participants t (the (currentSpeaker t)) = None
             \<longrightarrow> getSpeakerAtTime t ts
                 = \<lparr>s_uuid = ''unknown'', s_displayName = ''Unknown Speaker'', confidence = 0\<rparr>))"
proof (intro conjI allI impI)
  fix i
  assume a: "i < length (speakingHistory t) \<and> interval_covers (speakingHistory t ! i) ts
        \<and> (\<forall>j. i < j \<and> j < length (speakingHistory t)
               \<longrightarrow> \<not> interval_covers (speakingHistory t ! j) ts)"
  then have "scanHistory (speakingHistory t) (length (speakingHistory t)) ts
      = Some (speakingHistory t ! i)"
    by (intro scanHistory_newest) auto
  then show "getSpeakerAtTime t ts
          = \<lparr>s_uuid = h_uuid (speakingHistory t ! i),
             s_displayName = h_displayName (speakingHistory t ! i), confidence = 0.9\<rparr>"
    by (simp add: getSpeakerAtTime_def)
next
  fix u p
  assume n: "\<forall>j. j < length (speakingHistory t) \<longrightarrow> \<not> interval_covers (speakingHistory t ! j) ts"
    and c: "currentSpeaker t = Some u \<and> u \<noteq> [] \<and> participants t u = Some p"
  from n have "scanHistory (speakingHistory t) (length (speakingHistory t)) ts = None"
    by (intro scanHistory_none) auto
  then show "getSpeakerAtTime t ts
                 = \<lparr>s_uuid = uuid p, s_displayName = displayName p, confidence = 0.5\<rparr>"
    using c by (simp add: getSpeakerAtTime_def truthy_string_def)
next
  assume n: "\<forall>j. j < length (speakingHistory t) \<longrightarrow> \<not> interval_covers (speakingHistory t ! j) ts"
    and c: "\<not> truthy_string (currentSpeaker t) \<or> participants t (the (currentSpeaker t)) = None"
  from n have "scanHistory (speakingHistory t) (length (speakingHistory t)) ts = None"
    by (intro scanHistory_none) auto
  then show "getSpeakerAtTime t ts
                 = \<lparr>s_uuid = ''unknown'', s_displayName = ''Unknown Speaker'', confidence = 0\<rparr>"
    using c by (auto simp add: getSpeakerAtTime_def)
qed

theorem C4_getSpeakerAtTime_witness:
  "interval_covers (speakingHistory turn_state ! 0) 2500
   \<and> \<not> interval_covers (speakingHistory turn_state ! 1) 2500
   \<and> getSpeakerAtTime turn_state 2500
       = \<lparr>s_uuid = ''A'', s_displayName = ''Alice'', confidence = 0.9\<rparr>
   \<and> \<not> interval_covers (speakingHistory turn_state ! 0) 3500
   \<and> \<not> interval_covers (speakingHistory turn_state ! 1) 3500
   \<and> currentSpeaker turn_state = Some ''B''
   \<and> getSpeakerAtTime turn_state 3500
       = \<lparr>s_uuid = ''B'', s_displayName = ''Bob'', confidence = 0.5\<rparr>
   \<and> getSpeakerAtTime (new_tracker 0) 3500
       = \<lparr>s_uuid = ''unknown'', s_displayName = ''Unknown Speaker'', confidence = 0\<rparr>"
proof -
  have c0: "interval_covers (speakingHistory turn_state ! 0) 2500"
    and c1: "\<not> interval_covers (speakingHistory turn_state ! 1) 2500"
    and d0: "\<not> interval_covers (speakingHistory turn_state ! 0) 3500"
    and d1: "\<not> interval_covers (speakingHistory turn_state ! 1) 3500"
    by (simp_all add: turn_state_fields interval_covers_def)
  have len: "length (speakingHistory turn_state) = 2"
    by (simp add: turn_state_fields)
  obtain p where p: "participants turn_state ''B'' = Some p" "uuid p = ''B''" "displayName p = ''Bob''"
    using turn_state_fields(3,4) by auto
  have newest: "\<forall>j. 0 < j \<and> j < length (speakingHistory turn_state)
      \<longrightarrow> \<not> interval_covers (speakingHistory turn_state ! j) 2500"
    using c1 len by (auto simp add: less_Suc_eq numeral_2_eq_2)
  have none: "\<forall>j. j < length (speakingHistory turn_state)
      \<longrightarrow> \<not> interval_covers (speakingHistory turn_state ! j) 3500"
    using d0 d1 len by (auto simp add: less_Suc_eq numeral_2_eq_2)
  have empty: "\<forall>j. j < length (speakingHistory (new_tracker 0))
      \<longrightarrow> \<not> interval_covers (speakingHistory (new_tracker 0) ! j) 3500"
    by (simp add: new_tracker_def)
  have prem1: "0 < length (speakingHistory turn_state)
      \<and> interval_covers (speakingHistory turn_state ! 0) 2500
      \<and> (\<forall>j. 0 < j \<and> j < length (speakingHistory turn_state)
             \<longrightarrow> \<not> interval_covers (speakingHistory turn_state ! j) 2500)"
    using c0 newest len by simp
  have r1: "getSpeakerAtTime turn_state 2500
       = \<lparr>s_uuid = ''A'', s_displayName = ''Alice'', confidence = 0.9\<rparr>"
    using C4_getSpeakerAtTime[of turn_state 2500, THEN conjunct1, rule_format, OF prem1]
    by (simp add: turn_state_fields)
  have prem2: "currentSpeaker turn_state = Some ''B'' \<and> ''B'' \<noteq> []
      \<and> participants turn_state ''B'' = Some p"
    using p turn_state_fields(2) by simp
  have r2: "getSpeakerAtTime turn_state 3500
       = \<lparr>s_uuid = ''B'', s_displayName = ''Bob'', confidence = 0.5\<rparr>"
  proof -
    from C4_getSpeakerAtTime[of turn_state 3500] none
    have "currentSpeaker turn_state = Some ''B'' \<and> ''B'' \<noteq> []
        \<and> participants turn_state ''B'' = Some p
      \<longrightarrow> getSpeakerAtTime turn_state 3500
          = \<lparr>s_uuid = uuid p, s_displayName = displayName p, confidence = 0.5\<rparr>"
      by blast
    with prem2 p show ?thesis by simp
  qed
  have prem3: "\<not> truthy_string (currentSpeaker (new_tracker 0))
      \<or> participants (new_tracker 0) (the (currentSpeaker (new_tracker 0))) = None"
    by (simp add: new_tracker_def truthy_string_def)
  have r3: "getSpeakerAtTime (new_tracker 0) 3500
       = \<lparr>s_uuid = ''unknown'', s_displayName = ''Unknown Speaker'', confidence = 0\<rparr>"
    using C4_getSpeakerAtTime[of "new_tracker 0" 3500] empty prem3
    by blast
  show ?thesis using c0 c1 d0 d1 r1 r2 r3 turn_state_fields(2) by simp
qed

section \<open>Properties of the bridge client and the session orchestrator\<close>

subsection \<open>Token refresh\<close>

lemma refreshBuffer_div: "refreshBuffer e = min 30 (e div 4)"
proof -
  have "(of_int e :: rat) * 0.25 = of_int e / of_int 4" by simp
  then have "\<lfloor>(of_int e :: rat) * 0.25\<rfloor> = e div 4"
    by (simp only: floor_divide_of_int_eq)
  then show ?thesis by (simp add: refreshBuffer_def)
qed

lemma timer_set: "tokenRefreshTimer (startTokenRefresh c e) = Some (refreshInterval e)"
  by (simp add: startTokenRefresh_def Let_def split: option.splits)

text \<open>
  Claim C5, as stated, at a concrete input: for a token that expires in 41 seconds the
  timer is set to 31 seconds (31000 ms), while \<open>41 - min(30, 0.25 * 41)\<close> is 30.75.
\<close>

theorem C5_refresh_41_counterexample:
  "tokenRefreshTimer (startTokenRefresh new_connection 41) = Some 31000
   \<and> (31000 :: rat) / 1000 \<noteq> 41 - min 30 (0.25 * 41)"
  by (simp add: timer_set refreshInterval_def refreshBuffer_div)

text \<open>
  Claim C5, amended: for every token expiry \<open>expiresInSec\<close> the refresh timer is set to
  \<open>expiresInSec - min(30, floor(0.25 * expiresInSec))\<close> seconds (in milliseconds); for 120
  it is 90 seconds and for 40 it is 30 seconds; whenever \<open>expiresInSec\<close> is a multiple of
  4 or at least 120 this is \<open>expiresInSec - min(30, 0.25 * expiresInSec)\<close>.
\<close>

theorem C5_refresh_delay:
  "tokenRefreshTimer (startTokenRefresh c e) = Some ((e - min 30 (e div 4)) * 1000)
   \<and> tokenRefreshTimer (startTokenRefresh c 120) = Some 90000
   \<and> tokenRefreshTimer (startTokenRefresh c 40) = Some 30000
   \<and> (4 dvd e \<or> 120 \<le> e \<longrightarrow>
        (of_int (refreshInterval e) :: rat) / 1000 = of_int e - min 30 (0.25 * of_int e))"
proof -
  have "(of_int (refreshInterval e) :: rat) / 1000 = of_int e - min 30 (0.25 * of_int e)"
    if h: "4 dvd e \<or> 120 \<le> e"
  proof (cases "120 \<le> e")
    case True
    then have "min 30 (e div 4) = 30" by simp
    moreover have "min 30 (0.25 * (of_int e :: rat)) = 30"
      using True by (simp add: min_def)
    ultimately show ?thesis by (simp add: refreshInterval_def refreshBuffer_div)
  next
    case False
    with h obtain k where k: "e = 4 * k" by (auto simp add: dvd_def)
    then have "k < 30" using False by simp
    then have "min 30 (e div 4) = k" using k by simp
    moreover have "min 30 (0.25 * (of_int e :: rat)) = of_int k"
      using k \<open>k < 30\<close> by (simp add: min_def)
    ultimately show ?thesis using k by (simp add: refreshInterval_def refreshBuffer_div)
  qed
  then show ?thesis
    by (simp add: timer_set refreshInterval_def refreshBuffer_div)
qed

theorem C5_refresh_delay_witness:
  "(4 :: int) dvd 120 \<and> tokenRefreshTimer (startTokenRefresh new_connection 120) = Some 90000
   \<and> (of_int (refreshInterval 120) :: rat) / 1000 = of_int 120 - min 30 (0.25 * of_int 120)"
  using C5_refresh_delay[of new_connection 120] by simp

subsection \<open>Disconnect\<close>

lemma disconnect_begin_fields:
  "isRunning (disconnect_begin c) = False"
  "api (disconnect_begin c) = api c"
  "callUuid (disconnect_begin c) = callUuid c"
  "webrtc (disconnect_begin c) = webrtc_disconnect (webrtc c)"
  "calls (disconnect_begin c)
     = calls c @ (case tokenRefreshTimer c of Some t \<Rightarrow> [ClearTimeout t] | None \<Rightarrow> [])
         @ (case eventPollTimeout c of Some t \<Rightarrow> [ClearTimeout t] | None \<Rightarrow> [])
         @ [WebrtcDisconnect, SetTimeout 100]"
  by (simp_all add: disconnect_begin_def stopTokenRefresh_def Let_def split: option.split)

lemma disconnectCall_result:
  "disconnectCall a cu out
     = Inr (if truthy_string cu \<and> truthy_string (token a)
            then a\<lparr>posts := posts a @ [DisconnectReq cu]\<rparr> else a)"
  by (simp add: disconnectCall_def Let_def split: sum.split)

lemma releaseToken_result:
  "releaseToken a out
     = Inr (if truthy_string (token a)
            then a\<lparr>posts := posts a @ [ReleaseTokenReq], token := None\<rparr> else a)"
  by (simp add: releaseToken_def Let_def split: sum.split)

lemma disconnect_finish_fields:
  "isRunning (disconnect_finish c out1 out2) = isRunning c"
  "calls (disconnect_finish c out1 out2) = calls c"
  "webrtc (disconnect_finish c out1 out2) = webrtc c"
  "posts (api (disconnect_finish c out1 out2))
     = posts (api c)
         @ (if truthy_string (callUuid c) \<and> truthy_string (token (api c))
            then [DisconnectReq (callUuid c)] else [])
         @ (if truthy_string (token (api c)) then [ReleaseTokenReq] else [])"
  by (simp_all add: disconnect_finish_def disconnectCall_result releaseToken_result)

text \<open>
  Claim C8: for every running session, \<open>disconnect()\<close> clears the running flag, stops the
  token refresh and the event polling (clearing each timer that is pending), closes the
  media handler, waits, and sends the bridge's disconnect and release requests, each
  once and in this order; a second \<open>disconnect()\<close> leaves the whole state as it is, timer
  calls and requests included, whether it comes after the first has finished or while
  the first is waiting in its delay.
\<close>

theorem C8_disconnect_once:
  assumes "isRunning c"
  shows "\<not> isRunning (disconnect c out1 out2)
   \<and> calls (disconnect c out1 out2)
       = calls c @ (case tokenRefreshTimer c of Some t \<Rightarrow> [ClearTimeout t] | None \<Rightarrow> [])
           @ (case eventPollTimeout c of Some t \<Rightarrow> [ClearTimeout t] | None \<Rightarrow> [])
           @ [WebrtcDisconnect, SetTimeout 100]
   \<and> posts (api (disconnect c out1 out2))
       = posts (api c)
           @ (if truthy_string (callUuid c) \<and> truthy_string (token (api c))
              then [DisconnectReq (callUuid c)] else [])
           @ (if truthy_string (token (api c)) then [ReleaseTokenReq] else [])
   \<and> webrtc (disconnect c out1 out2) = webrtc_disconnect (webrtc c)
   \<and> disconnect (disconnect c out1 out2) out3 out4 = disconnect c out1 out2
   \<and> disconnect (disconnect_begin c) out3 out4 = disconnect_begin c"
proof -
  have d: "disconnect c out1 out2 = disconnect_finish (disconnect_begin c) out1 out2"
    using assms by (simp add: disconnect_def)
  have stopped: "\<not> isRunning (disconnect c out1 out2)"
    by (simp add: d disconnect_finish_fields disconnect_begin_fields)
  have again: "disconnect (disconnect c out1 out2) out3 out4 = disconnect c out1 out2"
    using stopped by (simp add: disconnect_def)
  have during: "disconnect (disconnect_begin c) out3 out4 = disconnect_begin c"
    by (simp add: disconnect_def disconnect_begin_fields)
  show ?thesis
    using stopped again during
    by (simp add: d disconnect_finish_fields disconnect_begin_fields)
qed

theorem C8_disconnect_once_witness:
  "isRunning connected_example
   \<and> calls (disconnect connected_example (Status 200) (Status 200))
       = [SetTimeout 90000, ClearTimeout 90000, WebrtcDisconnect, SetTimeout 100]
   \<and> posts (api (disconnect connected_example (Status 200) (Status 200)))
       = [DisconnectReq (Some ''call-1''), ReleaseTokenReq]
   \<and> disconnect (disconnect connected_example (Status 200) (Status 200)) (Status 200) (Status 200)
       = disconnect connected_example (Status 200) (Status 200)"
  using C8_disconnect_once[of connected_example "Status 200" "Status 200" "Status 200" "Status 200"]
  by (simp add: connected_example_def truthy_string_def)

text \<open>
  Claim C9: a 403 answer makes \<open>axios.post\<close> reject; \<open>disconnectCall\<close> and \<open>releaseToken\<close>
  catch the rejection and return normally; \<open>releaseToken\<close> leaves no usable token (it
  sets the token to null whenever there was one). In a teardown where the bridge answers
  both requests with 403, \<open>disconnect()\<close> still sends both and ends with the token
  cleared.
\<close>

theorem C9_403_is_success:
  "axios_post (Status 403) = Inl (AxiosError (Some 403))
   \<and> (\<exists>a'. disconnectCall a cu (Status 403) = Inr a' \<and> token a' = token a)
   \<and> (\<exists>a'. releaseToken a (Status 403) = Inr a' \<and> \<not> truthy_string (token a')
           \<and> (truthy_string (token a) \<longrightarrow> token a' = None))
   \<and> (isRunning c \<and> truthy_string (callUuid c) \<and> truthy_string (token (api c)) \<longrightarrow>
         posts (api (disconnect c (Status 403) (Status 403)))
           = posts (api c) @ [DisconnectReq (callUuid c), ReleaseTokenReq]
         \<and> token (api (disconnect c (Status 403) (Status 403))) = None)"
proof -
  have api_level: "axios_post (Status 403) = Inl (AxiosError (Some 403))
     \<and> (\<exists>a'. disconnectCall a cu (Status 403) = Inr a' \<and> token a' = token a)
     \<and> (\<exists>a'. releaseToken a (Status 403) = Inr a' \<and> \<not> truthy_string (token a')
           \<and> (truthy_string (token a) \<longrightarrow> token a' = None))"
    by (simp add: axios_post_def disconnectCall_def releaseToken_def truthy_string_def Let_def)
  have teardown: "posts (api (disconnect c (Status 403) (Status 403)))
           = posts (api c) @ [DisconnectReq (callUuid c), ReleaseTokenReq]
         \<and> token (api (disconnect c (Status 403) (Status 403))) = None"
    if "isRunning c \<and> truthy_string (callUuid c) \<and> truthy_string (token (api c))"
    using that
    by (simp add: disconnect_def disconnect_finish_def disconnect_begin_fields
        disconnectCall_result releaseToken_result)
  from api_level teardown show ?thesis by blast
qed

theorem C9_403_is_success_witness:
  "isRunning connected_example \<and> truthy_string (callUuid connected_example)
   \<and> truthy_string (token (api connected_example))
   \<and> disconnectCall (api connected_example) (Some ''call-1'') (Status 403)
     = Inr \<lparr>token = Some ''tok'', participantUuid = Some ''p-1'',
            posts = [DisconnectReq (Some ''call-1'')]\<rparr>
   \<and> releaseToken (api connected_example) (Status 403)
     = Inr \<lparr>token = None, participantUuid = Some ''p-1'', posts = [ReleaseTokenReq]\<rparr>
   \<and> posts (api (disconnect connected_example (Status 403) (Status 403)))
     = [DisconnectReq (Some ''call-1''), ReleaseTokenReq]
   \<and> token (api (disconnect connected_example (Status 403) (Status 403))) = None"
  using C9_403_is_success[of "api connected_example" "Some ''call-1''" connected_example]
  by (simp add: connected_example_def disconnectCall_result releaseToken_result truthy_string_def)

subsection \<open>Local ICE candidates\<close>

lemma run_Nil: "run c [] = c" by (simp add: run_def)
lemma run_Cons: "run c (e # evs) = run (step c e) evs" by (simp add: run_def)
lemma run_append: "run c (xs @ ys) = run (run c xs) ys" by (simp add: run_def)

text \<open>Before the call identifier is known, the handler only queues.\<close>

lemma run_queues:
  "\<not> truthy_string (callUuid c) \<Longrightarrow>
   run c (map IceCandidate cs) = c\<lparr>pendingIceCandidates := pendingIceCandidates c @ cs\<rparr>"
proof (induction cs arbitrary: c)
  case Nil
  then show ?case by (simp add: run_Nil)
next
  case (Cons x cs)
  have "step c (IceCandidate x) = c\<lparr>pendingIceCandidates := pendingIceCandidates c @ [x]\<rparr>"
    using Cons.prems by (simp add: iceCandidateHandler_def)
  moreover have "\<not> truthy_string (callUuid (c\<lparr>pendingIceCandidates := pendingIceCandidates c @ [x]\<rparr>))"
    using Cons.prems by simp
  ultimately show ?case using Cons.IH by (simp add: run_Cons)
qed

text \<open>With the call identifier known and no flush in progress, every candidate is sent at once.\<close>

lemma run_idle:
  assumes "callUuid c = Some u" and "u \<noteq> []" and "flushCursor c = None" and "no_join evs"
  shows "posts (api (run c evs))
           = posts (api c) @ map (NewCandidateReq (Some u)) (candidates_of evs)
       \<and> pendingIceCandidates (run c evs) = pendingIceCandidates c
       \<and> flushCursor (run c evs) = None \<and> callUuid (run c evs) = Some u"
  using assms
proof (induction evs arbitrary: c)
  case Nil
  then show ?case by (simp add: run_Nil)
next
  case (Cons e evs)
  show ?case
  proof (cases e)
    case (IceCandidate x)
    let ?c1 = "iceCandidateHandler c x"
    have st: "step c e = ?c1" by (simp add: IceCandidate)
    have s: "posts (api ?c1) = posts (api c) @ [NewCandidateReq (Some u) x]"
      "pendingIceCandidates ?c1 = pendingIceCandidates c"
      "callUuid ?c1 = Some u" "flushCursor ?c1 = None"
      using Cons.prems by (simp_all add: iceCandidateHandler_def
          sendIceCandidate_def truthy_string_def)
    have "no_join evs" using Cons.prems(4) IceCandidate by simp
    from Cons.IH[OF s(3) Cons.prems(2) s(4) this] show ?thesis
      by (simp add: run_Cons st s IceCandidate)
  next
    case (JoinCallReturned j)
    then show ?thesis using Cons.prems(4) by simp
  next
    case FlushResumed
    have st: "step c e = c" using Cons.prems(3) by (simp add: FlushResumed flushResumed_def)
    have "no_join evs" using Cons.prems(4) FlushResumed by simp
    moreover have "run c (e # evs) = run c evs" by (simp only: run_Cons st)
    moreover have "candidates_of (e # evs) = candidates_of evs" by (simp add: FlushResumed)
    ultimately show ?thesis using Cons.IH[OF Cons.prems(1,2,3)] by simp
  qed
qed

text \<open>
  While the flush loop is suspended at position \<open>i\<close>, the requests still to come are an
  interleaving of the rest of the queue, in order, and the candidates delivered meanwhile.
\<close>

lemma run_flushing:
  assumes "callUuid c = Some u" and "u \<noteq> []" and "flushCursor c = Some i"
    and "i \<le> length (pendingIceCandidates c)" and "no_join evs"
    and "length (pendingIceCandidates c) - i < resumes evs"
  shows "(\<exists>z \<in> shuffles (map (NewCandidateReq (Some u)) (drop i (pendingIceCandidates c)))
                       (map (NewCandidateReq (Some u)) (candidates_of evs)).
            posts (api (run c evs)) = posts (api c) @ z)
       \<and> pendingIceCandidates (run c evs) = []
       \<and> flushCursor (run c evs) = None"
  using assms
proof (induction evs arbitrary: c i)
  case Nil
  then show ?case by simp
next
  case (Cons e evs)
  let ?R = "NewCandidateReq (Some u)"
  show ?case
  proof (cases e)
    case (IceCandidate x)
    let ?c1 = "iceCandidateHandler c x"
    have st: "step c e = ?c1" by (simp add: IceCandidate)
    have s: "posts (api ?c1) = posts (api c) @ [?R x]"
      "pendingIceCandidates ?c1 = pendingIceCandidates c"
      "callUuid ?c1 = Some u" "flushCursor ?c1 = Some i"
      using Cons.prems by (simp_all add: iceCandidateHandler_def
          sendIceCandidate_def truthy_string_def)
    have p: "i \<le> length (pendingIceCandidates ?c1)" "no_join evs"
      "length (pendingIceCandidates ?c1) - i < resumes evs"
      using Cons.prems IceCandidate by (simp_all add: s)
    from Cons.IH[OF s(3) Cons.prems(2) s(4) p]
    obtain z where z: "z \<in> shuffles (map ?R (drop i (pendingIceCandidates c)))
                                   (map ?R (candidates_of evs))"
      and pz: "posts (api (run ?c1 evs)) = posts (api ?c1) @ z"
      and rest: "pendingIceCandidates (run ?c1 evs) = []" "flushCursor (run ?c1 evs) = None"
      by (auto simp add: s)
    have "?R x # z \<in> shuffles (map ?R (drop i (pendingIceCandidates c)))
                              (map ?R (candidates_of (e # evs)))"
      using z by (simp add: IceCandidate Cons_in_shuffles_rightI)
    moreover have "posts (api (run c (e # evs))) = posts (api c) @ (?R x # z)"
      using pz by (simp add: run_Cons st s)
    ultimately show ?thesis using rest by (auto simp add: run_Cons st)
  next
    case (JoinCallReturned j)
    then show ?thesis using Cons.prems(5) by simp
  next
    case FlushResumed
    show ?thesis
    proof (cases "i < length (pendingIceCandidates c)")
      case True
      let ?c1 = "flushResumed c"
      let ?x = "pendingIceCandidates c ! i"
      have st: "step c e = ?c1" by (simp add: FlushResumed)
      have s: "posts (api ?c1) = posts (api c) @ [?R ?x]"
        "pendingIceCandidates ?c1 = pendingIceCandidates c"
        "callUuid ?c1 = Some u" "flushCursor ?c1 = Some (Suc i)"
        using Cons.prems True by (simp_all add: flushResumed_def sendIceCandidate_def)
      have p: "Suc i \<le> length (pendingIceCandidates ?c1)" "no_join evs"
        "length (pendingIceCandidates ?c1) - Suc i < resumes evs"
        using Cons.prems True FlushResumed by (simp_all add: s)
      from Cons.IH[OF s(3) Cons.prems(2) s(4) p]
      obtain z where z: "z \<in> shuffles (map ?R (drop (Suc i) (pendingIceCandidates c)))
                                     (map ?R (candidates_of evs))"
        and pz: "posts (api (run ?c1 evs)) = posts (api ?c1) @ z"
        and rest: "pendingIceCandidates (run ?c1 evs) = []" "flushCursor (run ?c1 evs) = None"
        by (auto simp add: s)
      have dr: "drop i (pendingIceCandidates c) = ?x # drop (Suc i) (pendingIceCandidates c)"
        using True by (simp add: Cons_nth_drop_Suc)
      have "?R ?x # z \<in> shuffles (map ?R (drop i (pendingIceCandidates c)))
                                 (map ?R (candidates_of (e # evs)))"
        using z by (simp add: FlushResumed dr Cons_in_shuffles_leftI)
      moreover have "posts (api (run c (e # evs))) = posts (api c) @ (?R ?x # z)"
        using pz by (simp add: run_Cons st s)
      ultimately show ?thesis using rest by (auto simp add: run_Cons st)
    next
      case False
      then have i: "i = length (pendingIceCandidates c)" using Cons.prems(4) by simp
      let ?c1 = "flushResumed c"
      have st: "step c e = ?c1" by (simp add: FlushResumed)
      have s: "posts (api ?c1) = posts (api c)" "pendingIceCandidates ?c1 = []"
        "callUuid ?c1 = Some u" "flushCursor ?c1 = None"
        using Cons.prems False by (simp_all add: flushResumed_def)
      have "no_join evs" using Cons.prems(5) FlushResumed by simp
      from run_idle[OF s(3) Cons.prems(2) s(4) this]
      have "posts (api (run c (e # evs)))
              = posts (api c) @ map ?R (candidates_of (e # evs))"
        "pendingIceCandidates (run c (e # evs)) = []" "flushCursor (run c (e # evs)) = None"
        by (simp_all add: run_Cons st s FlushResumed)
      then show ?thesis by (simp add: i)
    qed
  qed
qed

text \<open>
  Claim C1: starting from a session without call identifier, with an empty queue and no
  flush in progress, candidates \<open>cs\<close> delivered before \<open>joinCall\<close> returns are queued in
  order and nothing is sent. When \<open>joinCall\<close> returns the non-empty identifier \<open>u\<close> and
  the flush loop is resumed until it ends (at least \<open>length cs\<close> times), the requests
  sent to the bridge are an interleaving of the queued candidates, each once and in
  their original order, all with the identifier \<open>u\<close>, and of the candidates delivered
  meanwhile, each once and in order; the queue ends empty. With no candidate delivered
  meanwhile the requests are exactly the queued candidates in order. A candidate
  delivered while the identifier is set is sent by the handler itself and is not
  queued.
\<close>

theorem C1_queued_candidates_flushed_in_order:
  assumes "\<not> truthy_string (callUuid c)" and "pendingIceCandidates c = []"
    and "flushCursor c = None" and "u \<noteq> []" and "no_join evs"
    and "length cs \<le> resumes evs"
  shows "pendingIceCandidates (run c (map IceCandidate cs)) = cs
     \<and> posts (api (run c (map IceCandidate cs))) = posts (api c)
     \<and> (\<exists>z \<in> shuffles (map (NewCandidateReq (Some u)) cs)
                       (map (NewCandidateReq (Some u)) (candidates_of evs)).
           posts (api (run c (map IceCandidate cs @ JoinCallReturned (Some u) # evs)))
             = posts (api c) @ z)
     \<and> pendingIceCandidates (run c (map IceCandidate cs @ JoinCallReturned (Some u) # evs)) = []
     \<and> (candidates_of evs = [] \<longrightarrow>
           posts (api (run c (map IceCandidate cs @ JoinCallReturned (Some u) # evs)))
             = posts (api c) @ map (NewCandidateReq (Some u)) cs)
     \<and> (truthy_string (callUuid c') \<longrightarrow>
           posts (api (iceCandidateHandler c' x))
             = posts (api c') @ [NewCandidateReq (callUuid c') x]
           \<and> pendingIceCandidates (iceCandidateHandler c' x) = pendingIceCandidates c')"
proof -
  let ?R = "NewCandidateReq (Some u)"
  let ?c1 = "c\<lparr>pendingIceCandidates := cs\<rparr>"
  let ?c2 = "joinCallReturned ?c1 (Some u)"
  let ?final = "run c (map IceCandidate cs @ JoinCallReturned (Some u) # evs)"
  have q: "run c (map IceCandidate cs) = ?c1"
    using run_queues[OF assms(1), of cs] assms(2) by simp
  have fin: "?final = run ?c2 evs"
    by (simp add: run_append q run_Cons)
  have main: "(\<exists>z \<in> shuffles (map ?R cs) (map ?R (candidates_of evs)).
                 posts (api ?final) = posts (api c) @ z)
            \<and> pendingIceCandidates ?final = []"
  proof (cases "cs = []")
    case True
    have s: "callUuid ?c2 = Some u" "flushCursor ?c2 = None" "posts (api ?c2) = posts (api c)"
      "pendingIceCandidates ?c2 = []"
      using assms(3) True by (simp_all add: joinCallReturned_def)
    have r: "posts (api (run ?c2 evs)) = posts (api c) @ map ?R (candidates_of evs)"
      "pendingIceCandidates (run ?c2 evs) = []"
      using run_idle[OF s(1) assms(4) s(2) assms(5)] by (simp_all add: s)
    have "map ?R (candidates_of evs) \<in> shuffles (map ?R cs) (map ?R (candidates_of evs))"
      using True by simp
    with r show ?thesis unfolding fin by blast
  next
    case False
    then obtain y ys where cs: "cs = y # ys" by (cases cs) auto
    have s: "callUuid ?c2 = Some u" "flushCursor ?c2 = Some 1"
      "posts (api ?c2) = posts (api c) @ [?R y]" "pendingIceCandidates ?c2 = cs"
      using cs by (simp_all add: joinCallReturned_def sendIceCandidate_def)
    have p: "1 \<le> length (pendingIceCandidates ?c2)"
      "length (pendingIceCandidates ?c2) - 1 < resumes evs"
      unfolding s(4) using assms(6) cs by simp_all
    from run_flushing[OF s(1) assms(4) s(2) p(1) assms(5) p(2)]
    obtain z where z: "z \<in> shuffles (map ?R (drop 1 cs)) (map ?R (candidates_of evs))"
      and pz: "posts (api (run ?c2 evs)) = posts (api ?c2) @ z"
      and e: "pendingIceCandidates (run ?c2 evs) = []"
      by (auto simp add: s(4))
    have "?R y # z \<in> shuffles (map ?R cs) (map ?R (candidates_of evs))"
      using z cs by (simp add: Cons_in_shuffles_leftI)
    moreover have "posts (api (run ?c2 evs)) = posts (api c) @ (?R y # z)"
      using pz by (simp add: s(3))
    ultimately show ?thesis using e unfolding fin by blast
  qed
  have alone: "posts (api ?final) = posts (api c) @ map ?R cs" if "candidates_of evs = []"
    using main that by auto
  have later: "posts (api (iceCandidateHandler c' x))
             = posts (api c') @ [NewCandidateReq (callUuid c') x]
           \<and> pendingIceCandidates (iceCandidateHandler c' x) = pendingIceCandidates c'"
    if "truthy_string (callUuid c')"
    using that by (simp add: iceCandidateHandler_def sendIceCandidate_def)
  show ?thesis using q main alone later by simp
qed

theorem C1_queued_candidates_flushed_in_order_witness:
  "\<not> truthy_string (callUuid new_connection) \<and> pendingIceCandidates new_connection = []
   \<and> flushCursor new_connection = None \<and> ''call-1'' \<noteq> []
   \<and> no_join [FlushResumed, IceCandidate (cand ''c''), FlushResumed]
   \<and> length [cand ''a'', cand ''b''] \<le> resumes [FlushResumed, IceCandidate (cand ''c''), FlushResumed]
   \<and> truthy_string (callUuid connected_example)
   \<and> posts (api (run new_connection
        (map IceCandidate [cand ''a'', cand ''b''] @ JoinCallReturned (Some ''call-1'')
           # [FlushResumed, IceCandidate (cand ''c''), FlushResumed])))
      = [NewCandidateReq (Some ''call-1'') (cand ''a''), NewCandidateReq (Some ''call-1'') (cand ''b''),
         NewCandidateReq (Some ''call-1'') (cand ''c'')]
   \<and> pendingIceCandidates (run new_connection
        (map IceCandidate [cand ''a'', cand ''b''] @ JoinCallReturned (Some ''call-1'')
           # [FlushResumed, IceCandidate (cand ''c''), FlushResumed])) = []
   \<and> posts (api (iceCandidateHandler connected_example (cand ''d'')))
      = [NewCandidateReq (Some ''call-1'') (cand ''d'')]"
  using C1_queued_candidates_flushed_in_order[where c = new_connection and u = "''call-1''"
      and evs = "[FlushResumed, IceCandidate (cand ''c''), FlushResumed]"
      and cs = "[cand ''a'', cand ''b'']" and c' = connected_example and x = "cand ''d''"]
  by (simp add: run_def new_connection_def connected_example_def truthy_string_def
      iceCandidateHandler_def joinCallReturned_def flushResumed_def sendIceCandidate_def)

end
